theory Spec2Isabelle
  imports Main "HOL-Library.Char_ord" "HOL-Library.List_Lexorder"
begin

section \<open>The auth ConfigMap of pkg/authconfigmap\<close>

text \<open>
  The package edits the \<open>aws-auth\<close> ConfigMap: three keys of its \<open>Data\<close> map hold YAML
  sequences (role mappings, user mappings, account numbers). The source file
  \<open>pkg/authconfigmap/authconfigmap.go\<close> comes in two listings. The first one keeps the ARN
  of a mapping as a string inside \<open>MapIdentity\<close> and classifies it itself; the second one
  stores \<open>iam.Identity\<close> values and asks package \<open>iam\<close> for the ARN and its kind. The
  account functions, \<open>New\<close> and \<open>Save\<close> are the same text in both listings.
\<close>

subsection \<open>Errors\<close>

datatype error =
    DecodeError string          \<comment> \<open>\<open>errors.Wrap(err, "unmarshalling <key>")\<close>\<close>
  | NotFoundError string        \<comment> \<open>\<open>fmt.Errorf("... %q not found in auth ConfigMap", x)\<close>\<close>
  | ClassificationError string  \<comment> \<open>second listing: "cannot determine if %q refers to a user or role"\<close>
  | IamError string             \<comment> \<open>second listing: an error handed back by package \<open>iam\<close>\<close>
  | ApiError string             \<comment> \<open>an error handed back by the ConfigMap client\<close>
  | MissingArn                  \<comment> \<open>first listing: \<open>errors.New("missing arn")\<close> of \<open>UnmarshalJSON\<close>\<close>
  | NilMapPanic                 \<comment> \<open>Go: assignment to an entry of a nil map\<close>
  | NilPointerPanic             \<comment> \<open>Go: dereference of a nil \<open>*ConfigMap\<close>\<close>

subsection \<open>Data\<close>

text \<open>
  \<open>MapIdentity\<close> of the first listing: the embedded \<open>iam.Identity\<close> (username and groups)
  and the ARN.
\<close>

record MapIdentity =
  Username :: string
  Groups :: "string list"
  ARN :: string

text \<open>
  One mapping of a stored YAML sequence, by the keys that the codec of the package reads
  or writes: \<open>rolearn\<close>, \<open>userarn\<close>, \<open>ARN\<close>, \<open>username\<close> and \<open>groups\<close>. A key that is
  absent is \<open>None\<close>; other keys are not looked at by the decoder.
\<close>

record entry =
  at_rolearn :: "string option"
  at_userarn :: "string option"
  at_ARN :: "string option"
  at_username :: "string option"
  at_groups :: "string list option"

text \<open>
  The three keys of \<open>cm.Data\<close> that the package reads and writes. The YAML library is
  outside the package: the text under an identity key is represented by the sequence of
  mappings it denotes, \<open>None\<close> for a text that is not such a sequence, and the text under the
  accounts key by the sequence of strings it denotes. An absent key reads as the empty
  text, which denotes the empty sequence, so it is \<open>Some []\<close>. What the package makes of a
  mapping, and which mapping it writes for an identity, is its own code and is modelled
  below. The error result of \<open>yaml.Marshal\<close> is left out: it concerns strings with
  control or non UTF-8 bytes only.
\<close>

record Data =
  mapRoles :: "entry list option"
  mapUsers :: "entry list option"
  mapAccounts :: "string list option"

record ObjectMeta =
  Name :: string
  Namespace :: string
  UID :: string

text \<open>A \<open>corev1.ConfigMap\<close>; \<open>Data = None\<close> is Go's nil map.\<close>

record ConfigMap =
  ObjectMeta :: ObjectMeta
  Data :: "Data option"

text \<open>
  The client (\<open>v1.ConfigMapInterface\<close>) is outside the package: its two write operations are
  functions from the ConfigMap sent to the pointer and the error that come back.
\<close>

record Client =
  Create :: "ConfigMap \<Rightarrow> ConfigMap option \<times> error option"
  Update :: "ConfigMap \<Rightarrow> ConfigMap option \<times> error option"

text \<open>\<open>AuthConfigMap\<close>: the client and the pointer \<open>cm\<close> (\<open>None\<close> is nil).\<close>

record AuthConfigMap =
  client :: Client
  cm :: "ConfigMap option"

subsection \<open>Construction\<close>

definition ObjectName :: string where
  "ObjectName = ''aws-auth''"

definition ObjectNamespace :: string where
  "ObjectNamespace = ''kube-system''"

text \<open>\<open>ObjectMeta()\<close>: name and namespace, every other field zero.\<close>

definition ObjectMeta_new :: ObjectMeta where
  "ObjectMeta_new = \<lparr>Name = ObjectName, Namespace = ObjectNamespace, UID = ''''\<rparr>"

text \<open>\<open>map[string]string{}\<close>: no key present.\<close>

definition emptyData :: Data where
  "emptyData = \<lparr>mapRoles = Some [], mapUsers = Some [], mapAccounts = Some []\<rparr>"

definition New :: "Client \<Rightarrow> ConfigMap option \<Rightarrow> AuthConfigMap" where
  "New cl cmo =
     (let c1 = (case cmo of
                  None \<Rightarrow> \<lparr>ObjectMeta = ObjectMeta_new, Data = Some emptyData\<rparr>
                | Some c \<Rightarrow> c);
          c2 = (if Data c1 = None
                then c1\<lparr>ObjectMeta := ObjectMeta_new, Data := Some emptyData\<rparr>
                else c1)
      in \<lparr>client = cl, cm = Some c2\<rparr>)"

subsection \<open>Reading and writing the keys\<close>

text \<open>
  Reading \<open>a.cm.Data[key]\<close>: a nil \<open>cm\<close> panics, a nil map reads as the empty text.
  Writing \<open>a.cm.Data[key] = v\<close>: a nil \<open>cm\<close> and a nil map both panic.
\<close>

definition readData :: "AuthConfigMap \<Rightarrow> error + Data" where
  "readData a =
     (case cm a of
        None \<Rightarrow> Inl NilPointerPanic
      | Some c \<Rightarrow> (case Data c of None \<Rightarrow> Inr emptyData | Some d \<Rightarrow> Inr d))"

definition writeData :: "(Data \<Rightarrow> Data) \<Rightarrow> AuthConfigMap \<Rightarrow> error + AuthConfigMap" where
  "writeData f a =
     (case cm a of
        None \<Rightarrow> Inl NilPointerPanic
      | Some c \<Rightarrow>
          (case Data c of
             None \<Rightarrow> Inl NilMapPanic
           | Some d \<Rightarrow> Inr (a\<lparr>cm := Some (c\<lparr>Data := Some (f d)\<rparr>)\<rparr>)))"

subsection \<open>Accounts\<close>

definition accounts :: "AuthConfigMap \<Rightarrow> error + string list" where
  "accounts a =
     (case readData a of
        Inl e \<Rightarrow> Inl e
      | Inr d \<Rightarrow> (case mapAccounts d of
                   None \<Rightarrow> Inl (DecodeError ''mapAccounts'')
                 | Some xs \<Rightarrow> Inr xs))"

definition setAccounts :: "string list \<Rightarrow> AuthConfigMap \<Rightarrow> error + AuthConfigMap" where
  "setAccounts xs a = writeData (\<lambda>d. d\<lparr>mapAccounts := Some xs\<rparr>) a"

text \<open>
  \<open>sets.NewString(accounts...).List()\<close> of the Kubernetes library: the distinct strings in
  increasing order. Go compares strings byte by byte, which is the lexicographic order
  of \<open>char list\<close>.
\<close>

definition NewString_List :: "string list \<Rightarrow> string list" where
  "NewString_List xs = sort (remdups xs)"

definition AddAccount :: "string \<Rightarrow> AuthConfigMap \<Rightarrow> error + AuthConfigMap" where
  "AddAccount account a =
     (case accounts a of
        Inl e \<Rightarrow> Inl e
      | Inr accs \<Rightarrow> setAccounts (NewString_List (accs @ [account])) a)"

text \<open>The loop of \<open>RemoveAccount\<close>: the accounts kept so far and whether one was skipped.\<close>

fun removeLoop :: "string \<Rightarrow> string list \<Rightarrow> string list \<Rightarrow> bool \<Rightarrow> string list \<times> bool" where
  "removeLoop account [] newaccounts found = (newaccounts, found)"
| "removeLoop account (acc # rest) newaccounts found =
     (if acc = account then removeLoop account rest newaccounts True
      else removeLoop account rest (newaccounts @ [acc]) found)"

definition RemoveAccount :: "string \<Rightarrow> AuthConfigMap \<Rightarrow> error + AuthConfigMap" where
  "RemoveAccount account a =
     (case accounts a of
        Inl e \<Rightarrow> Inl e
      | Inr accs \<Rightarrow>
          (case removeLoop account accs [] False of
             (newaccounts, found) \<Rightarrow>
               if \<not> found then Inl (NotFoundError account)
               else setAccounts newaccounts a))"

subsection \<open>Persisting\<close>

text \<open>
  \<open>Save\<close> makes one call to the client and stores the pointer that comes back in
  \<open>a.cm\<close>, whether or not the call failed. The call made is recorded beside the new state.
\<close>

datatype call = CreateCall ConfigMap | UpdateCall ConfigMap

record saved =
  after :: AuthConfigMap
  performed :: call
  failure :: "error option"

definition Save :: "AuthConfigMap \<Rightarrow> error + saved" where
  "Save a =
     (case cm a of
        None \<Rightarrow> Inl NilPointerPanic
      | Some c \<Rightarrow>
          if UID (ObjectMeta c) = ''''
          then (case Create (client a) c of
                  (c', err) \<Rightarrow> Inr \<lparr>after = a\<lparr>cm := c'\<rparr>, performed = CreateCall c, failure = err\<rparr>)
          else (case Update (client a) c of
                  (c', err) \<Rightarrow> Inr \<lparr>after = a\<lparr>cm := c'\<rparr>, performed = UpdateCall c, failure = err\<rparr>))"

subsection \<open>Decoding and encoding a key\<close>

text \<open>
  \<open>yaml.Unmarshal\<close> into a slice decodes the mappings one after the other and stops at the
  first one that its decoder rejects; the caller wraps the error with the name of the key.
\<close>

fun unmarshalAll :: "(entry \<Rightarrow> error + 'i) \<Rightarrow> entry list \<Rightarrow> error + 'i list" where
  "unmarshalAll decode [] = Inr []"
| "unmarshalAll decode (e # es) =
     (case decode e of
        Inl err \<Rightarrow> Inl err
      | Inr x \<Rightarrow> (case unmarshalAll decode es of
                   Inl err \<Rightarrow> Inl err
                 | Inr xs \<Rightarrow> Inr (x # xs)))"

definition unmarshalKey ::
  "(entry \<Rightarrow> error + 'i) \<Rightarrow> string \<Rightarrow> entry list option \<Rightarrow> error + 'i list" where
  "unmarshalKey decode key text =
     (case text of
        None \<Rightarrow> Inl (DecodeError key)
      | Some es \<Rightarrow> (case unmarshalAll decode es of
                    Inl err \<Rightarrow> Inl (DecodeError key)
                  | Inr xs \<Rightarrow> Inr xs))"

text \<open>\<open>Identities\<close> of both listings: the roles key, then the users key, concatenated.\<close>

definition readIdentities :: "(entry \<Rightarrow> error + 'i) \<Rightarrow> AuthConfigMap \<Rightarrow> error + 'i list" where
  "readIdentities decode a =
     (case readData a of
        Inl e \<Rightarrow> Inl e
      | Inr d \<Rightarrow>
          (case unmarshalKey decode ''mapRoles'' (mapRoles d) of
             Inl e \<Rightarrow> Inl e
           | Inr roles \<Rightarrow>
               (case unmarshalKey decode ''mapUsers'' (mapUsers d) of
                  Inl e \<Rightarrow> Inl e
                | Inr users \<Rightarrow> Inr (roles @ users))))"

text \<open>The two assignments to \<open>a.cm.Data\<close> at the end of \<open>setIdentities\<close>, roles first.\<close>

definition storeIdentities :: "entry list \<Rightarrow> entry list \<Rightarrow> AuthConfigMap \<Rightarrow> error + AuthConfigMap" where
  "storeIdentities roles users a =
     (case writeData (\<lambda>d. d\<lparr>mapRoles := Some roles\<rparr>) a of
        Inl e \<Rightarrow> Inl e
      | Inr a' \<Rightarrow> writeData (\<lambda>d. d\<lparr>mapUsers := Some users\<rparr>) a')"

subsection \<open>First listing: identities as \<open>MapIdentity\<close>\<close>

text \<open>
  Modelled from the spec: the type \<open>iam.Identity\<close> is not part of the sources at hand.
  Its stored fields are \<open>username\<close> and \<open>groups\<close> (section 6 of the spec); decoding leaves
  an absent one at its zero value.
\<close>

definition unmarshal_Identity :: "entry \<Rightarrow> string \<times> string list" where
  "unmarshal_Identity data =
     ((case at_username data of None \<Rightarrow> '''' | Some u \<Rightarrow> u),
      (case at_groups data of None \<Rightarrow> [] | Some g \<Rightarrow> g))"

text \<open>
  \<open>MapIdentity.UnmarshalJSON\<close>: the ARN is the value under \<open>rolearn\<close>, else the one under
  \<open>userarn\<close>; a mapping with neither is rejected. The rest is decoded into the embedded
  \<open>iam.Identity\<close>.
\<close>

definition UnmarshalJSON :: "entry \<Rightarrow> error + MapIdentity" where
  "UnmarshalJSON data =
     (case (case at_rolearn data of Some arn \<Rightarrow> Some arn | None \<Rightarrow> at_userarn data) of
        None \<Rightarrow> Inl MissingArn
      | Some arn \<Rightarrow>
          (case unmarshal_Identity data of
             (username, groups) \<Rightarrow> Inr \<lparr>Username = username, Groups = groups, ARN = arn\<rparr>))"

text \<open>
  What \<open>yaml.Marshal\<close> writes for a \<open>MapIdentity\<close>. The type has no \<open>MarshalJSON\<close> and
  its field \<open>ARN\<close> has no tag, so the ARN is written under the key \<open>ARN\<close>, beside the
  \<open>username\<close> and \<open>groups\<close> of the embedded identity; neither \<open>rolearn\<close> nor \<open>userarn\<close>
  is written.
\<close>

definition marshalIdentity :: "MapIdentity \<Rightarrow> entry" where
  "marshalIdentity m =
     \<lparr>at_rolearn = None, at_userarn = None, at_ARN = Some (ARN m),
      at_username = Some (Username m), at_groups = Some (Groups m)\<rparr>"

text \<open>\<open>strings.Split(s, sep)\<close> for a separator of one byte; the empty string gives one empty portion.\<close>

fun Split :: "char \<Rightarrow> string \<Rightarrow> string list" where
  "Split sep [] = [[]]"
| "Split sep (x # xs) =
     (if x = sep then [] # Split sep xs
      else (case Split sep xs of
              [] \<Rightarrow> [[x]]
            | w # ws \<Rightarrow> (x # w) # ws))"

definition resource :: "MapIdentity \<Rightarrow> string" where
  "resource m =
     (let portions = Split CHR '':'' (ARN m)
      in if length portions < 6 then '''' else portions ! 5)"

definition Role :: "MapIdentity \<Rightarrow> bool" where
  "Role m = (resource m = ''role'')"

definition User :: "MapIdentity \<Rightarrow> bool" where
  "User m = (resource m = ''user'')"

text \<open>\<open>MapIdentities.Get\<close>: every mapping with the given ARN, in order.\<close>

fun Get :: "MapIdentity list \<Rightarrow> string \<Rightarrow> MapIdentity list" where
  "Get [] arn = []"
| "Get (r # rs) arn = (if ARN r = arn then r # Get rs arn else Get rs arn)"

definition Identities :: "AuthConfigMap \<Rightarrow> error + MapIdentity list" where
  "Identities a = readIdentities UnmarshalJSON a"

text \<open>
  The loop of \<open>setIdentities\<close>: two independent tests, so a mapping that is neither a role
  nor a user reaches neither list.
\<close>

fun splitIdentities ::
  "MapIdentity list \<Rightarrow> MapIdentity list \<Rightarrow> MapIdentity list \<Rightarrow> MapIdentity list \<times> MapIdentity list" where
  "splitIdentities [] users roles = (users, roles)"
| "splitIdentities (identity # rest) users roles =
     splitIdentities rest
       (if User identity then users @ [identity] else users)
       (if Role identity then roles @ [identity] else roles)"

definition setIdentities :: "MapIdentity list \<Rightarrow> AuthConfigMap \<Rightarrow> error + AuthConfigMap" where
  "setIdentities identities a =
     (case splitIdentities identities [] [] of
        (users, roles) \<Rightarrow>
          storeIdentities (map marshalIdentity roles) (map marshalIdentity users) a)"

definition AddIdentity ::
  "string \<Rightarrow> string \<Rightarrow> string list \<Rightarrow> AuthConfigMap \<Rightarrow> error + AuthConfigMap" where
  "AddIdentity arn username groups a =
     (case Identities a of
        Inl e \<Rightarrow> Inl e
      | Inr identities \<Rightarrow>
          setIdentities (identities @ [\<lparr>Username = username, Groups = groups, ARN = arn\<rparr>]) a)"

text \<open>
  The loop of \<open>RemoveIdentity\<close>. It stops at index \<open>i\<close> of the first match when \<open>all\<close>
  is false, and otherwise runs to the end with the mappings collected in \<open>newidentities\<close>
  (which only grows when \<open>all\<close> is true).
\<close>

datatype 'i scan = Found nat | Finished "'i list" | Failed error

fun scanIdentities ::
  "string \<Rightarrow> bool \<Rightarrow> nat \<Rightarrow> MapIdentity list \<Rightarrow> MapIdentity list \<Rightarrow> MapIdentity scan" where
  "scanIdentities arn all i [] newidentities = Finished newidentities"
| "scanIdentities arn all i (identity # rest) newidentities =
     (if ARN identity = arn
      then (if \<not> all then Found i
            else scanIdentities arn all (i + 1) rest newidentities)
      else if all then scanIdentities arn all (i + 1) rest (newidentities @ [identity])
      else scanIdentities arn all (i + 1) rest newidentities)"

definition RemoveIdentity :: "string \<Rightarrow> bool \<Rightarrow> AuthConfigMap \<Rightarrow> error + AuthConfigMap" where
  "RemoveIdentity arn all a =
     (case Identities a of
        Inl e \<Rightarrow> Inl e
      | Inr identities \<Rightarrow>
          (case scanIdentities arn all 0 identities [] of
             Found i \<Rightarrow> setIdentities (take i identities @ drop (i + 1) identities) a
           | Failed e \<Rightarrow> Inl e
           | Finished newidentities \<Rightarrow>
               if \<not> all then Inl (NotFoundError arn)
               else setIdentities newidentities a))"

subsection \<open>Second listing: identities as \<open>iam.Identity\<close>\<close>

text \<open>
  Package \<open>iam\<close> is not part of the sources at hand. What the second listing uses from
  it is a parameter: \<open>Identity.ARN()\<close>, \<open>Identity.Valid()\<close>, on the ARN \<open>Role()\<close>,
  \<open>User()\<close>, \<open>String()\<close> and the field \<open>Resource\<close>, and the mapping that an
  \<open>iam.Identity\<close> is written as and read from.
\<close>

record ('i, 'r) iam =
  identity_ARN :: "'i \<Rightarrow> error + 'r"
  identity_Valid :: "'i \<Rightarrow> error option"
  arn_Role :: "'r \<Rightarrow> bool"
  arn_User :: "'r \<Rightarrow> bool"
  arn_String :: "'r \<Rightarrow> string"
  arn_Resource :: "'r \<Rightarrow> string"
  identity_marshal :: "'i \<Rightarrow> entry"
  identity_unmarshal :: "entry \<Rightarrow> error + 'i"

definition Identities_iam :: "('i, 'r) iam \<Rightarrow> AuthConfigMap \<Rightarrow> error + 'i list" where
  "Identities_iam ops a = readIdentities (identity_unmarshal ops) a"

text \<open>The loop of the second \<open>setIdentities\<close>: a \<open>switch\<close> with a failing default.\<close>

fun splitIdentities_iam ::
  "('i, 'r) iam \<Rightarrow> 'i list \<Rightarrow> 'i list \<Rightarrow> 'i list \<Rightarrow> error + ('i list \<times> 'i list)" where
  "splitIdentities_iam ops [] users roles = Inr (users, roles)"
| "splitIdentities_iam ops (identity # rest) users roles =
     (case identity_ARN ops identity of
        Inl e \<Rightarrow> Inl e
      | Inr arn \<Rightarrow>
          if arn_Role ops arn then splitIdentities_iam ops rest users (roles @ [identity])
          else if arn_User ops arn then splitIdentities_iam ops rest (users @ [identity]) roles
          else Inl (ClassificationError (arn_Resource ops arn)))"

definition setIdentities_iam ::
  "('i, 'r) iam \<Rightarrow> 'i list \<Rightarrow> AuthConfigMap \<Rightarrow> error + AuthConfigMap" where
  "setIdentities_iam ops identities a =
     (case splitIdentities_iam ops identities [] [] of
        Inl e \<Rightarrow> Inl e
      | Inr (users, roles) \<Rightarrow>
          storeIdentities (map (identity_marshal ops) roles) (map (identity_marshal ops) users) a)"

definition AddIdentity_iam ::
  "('i, 'r) iam \<Rightarrow> 'i \<Rightarrow> AuthConfigMap \<Rightarrow> error + AuthConfigMap" where
  "AddIdentity_iam ops identity a =
     (case Identities_iam ops a of
        Inl e \<Rightarrow> Inl e
      | Inr identities \<Rightarrow>
          (case identity_Valid ops identity of
             Some e \<Rightarrow> Inl e
           | None \<Rightarrow> setIdentities_iam ops (identities @ [identity]) a))"

fun scanIdentities_iam ::
  "('i, 'r) iam \<Rightarrow> string \<Rightarrow> bool \<Rightarrow> nat \<Rightarrow> 'i list \<Rightarrow> 'i list \<Rightarrow> 'i scan" where
  "scanIdentities_iam ops arn all i [] newidentities = Finished newidentities"
| "scanIdentities_iam ops arn all i (identity # rest) newidentities =
     (case identity_ARN ops identity of
        Inl e \<Rightarrow> Failed e
      | Inr arn' \<Rightarrow>
          if arn_String ops arn' = arn
          then (if \<not> all then Found i
                else scanIdentities_iam ops arn all (i + 1) rest newidentities)
          else if all then scanIdentities_iam ops arn all (i + 1) rest (newidentities @ [identity])
          else scanIdentities_iam ops arn all (i + 1) rest newidentities)"

text \<open>The argument \<open>arn\<close> is only used through \<open>arn.String()\<close>, which is what is passed here.\<close>

definition RemoveIdentity_iam ::
  "('i, 'r) iam \<Rightarrow> string \<Rightarrow> bool \<Rightarrow> AuthConfigMap \<Rightarrow> error + AuthConfigMap" where
  "RemoveIdentity_iam ops arn all a =
     (case Identities_iam ops a of
        Inl e \<Rightarrow> Inl e
      | Inr identities \<Rightarrow>
          (case scanIdentities_iam ops arn all 0 identities [] of
             Found i \<Rightarrow> setIdentities_iam ops (take i identities @ drop (i + 1) identities) a
           | Failed e \<Rightarrow> Inl e
           | Finished newidentities \<Rightarrow>
               if \<not> all then Inl (NotFoundError arn)
               else setIdentities_iam ops newidentities a))"

subsection \<open>Notions used to state the properties\<close>

text \<open>The \<open>Data\<close> map held by an \<open>AuthConfigMap\<close>, when \<open>cm\<close> and the map are not nil.\<close>

definition snapshot :: "AuthConfigMap \<Rightarrow> Data option" where
  "snapshot a = (case cm a of None \<Rightarrow> None | Some c \<Rightarrow> Data c)"

text \<open>
  The roles key holds what the package writes for the identities \<open>roles\<close>, each of which
  passes \<open>isRole\<close>, and the users key what it writes for \<open>users\<close>, each of which passes
  \<open>isUser\<close>.
\<close>

definition keys_classified ::
  "('i \<Rightarrow> entry) \<Rightarrow> ('i \<Rightarrow> bool) \<Rightarrow> ('i \<Rightarrow> bool) \<Rightarrow> 'i list \<Rightarrow> 'i list \<Rightarrow> AuthConfigMap \<Rightarrow> bool" where
  "keys_classified marshal isRole isUser roles users a =
     (case snapshot a of
        None \<Rightarrow> False
      | Some d \<Rightarrow>
          mapRoles d = Some (map marshal roles) \<and> list_all isRole roles \<and>
          mapUsers d = Some (map marshal users) \<and> list_all isUser users)"

text \<open>
  Second listing: the case of the \<open>switch\<close> in \<open>setIdentities\<close> that a mapping reaches
  (the role case is tried first), and the string \<open>RemoveIdentity\<close> compares.
\<close>

definition Role_iam :: "('i, 'r) iam \<Rightarrow> 'i \<Rightarrow> bool" where
  "Role_iam ops identity =
     (case identity_ARN ops identity of Inl e \<Rightarrow> False | Inr arn \<Rightarrow> arn_Role ops arn)"

definition User_iam :: "('i, 'r) iam \<Rightarrow> 'i \<Rightarrow> bool" where
  "User_iam ops identity =
     (case identity_ARN ops identity of
        Inl e \<Rightarrow> False
      | Inr arn \<Rightarrow> \<not> arn_Role ops arn \<and> arn_User ops arn)"

definition principal_iam :: "('i, 'r) iam \<Rightarrow> 'i \<Rightarrow> string option" where
  "principal_iam ops identity =
     (case identity_ARN ops identity of Inl e \<Rightarrow> None | Inr arn \<Rightarrow> Some (arn_String ops arn))"

subsection \<open>Concrete values\<close>

text \<open>A client that accepts every write and hands out the UID \<open>uid-1\<close> on creation.\<close>

definition echoClient :: Client where
  "echoClient =
     \<lparr>Create = (\<lambda>c. (Some (c\<lparr>ObjectMeta := (ObjectMeta c)\<lparr>UID := ''uid-1''\<rparr>\<rparr>), None)),
      Update = (\<lambda>c. (Some c, None))\<rparr>"

text \<open>An \<open>AuthConfigMap\<close> not yet created remotely, holding the given sequences under the three keys.\<close>

definition holding :: "entry list \<Rightarrow> entry list \<Rightarrow> string list \<Rightarrow> AuthConfigMap" where
  "holding roles users accs =
     \<lparr>client = echoClient,
      cm = Some \<lparr>ObjectMeta = ObjectMeta_new,
                 Data = Some \<lparr>mapRoles = Some roles, mapUsers = Some users,
                              mapAccounts = Some accs\<rparr>\<rparr>\<rparr>"

text \<open>
  The mappings of the documented format, as a ConfigMap fetched from a cluster has them:
  the ARN under \<open>rolearn\<close> or under \<open>userarn\<close>.
\<close>

definition as_rolearn :: "MapIdentity \<Rightarrow> entry" where
  "as_rolearn m =
     \<lparr>at_rolearn = Some (ARN m), at_userarn = None, at_ARN = None,
      at_username = Some (Username m), at_groups = Some (Groups m)\<rparr>"

definition as_userarn :: "MapIdentity \<Rightarrow> entry" where
  "as_userarn m =
     \<lparr>at_rolearn = None, at_userarn = Some (ARN m), at_ARN = None,
      at_username = Some (Username m), at_groups = Some (Groups m)\<rparr>"

text \<open>Mappings whose sixth portion is the word \<open>role\<close> or \<open>user\<close>, and a group.\<close>

definition nodes :: MapIdentity where
  "nodes = \<lparr>Username = ''system:node:{{EC2PrivateDNSName}}'',
            Groups = [''system:bootstrappers'', ''system:nodes''],
            ARN = ''arn:aws:iam::123:role:nodes''\<rparr>"

definition admin :: MapIdentity where
  "admin = \<lparr>Username = ''admin'', Groups = [''system:masters''],
            ARN = ''arn:aws:iam::123:role:admin''\<rparr>"

definition bob :: MapIdentity where
  "bob = \<lparr>Username = ''bob'', Groups = [''viewers''], ARN = ''arn:aws:iam::123:user:bob''\<rparr>"

definition devs :: MapIdentity where
  "devs = \<lparr>Username = ''devs'', Groups = [''developers''], ARN = ''arn:aws:iam::123:group/devs''\<rparr>"

text \<open>Role mappings with the ARN written \<open>role/name\<close>; the first is the record of the spec.\<close>

definition nodeRole :: MapIdentity where
  "nodeRole = \<lparr>Username = ''system:node:{{EC2PrivateDNSName}}'',
               Groups = [''system:bootstrappers'', ''system:nodes''],
               ARN = ''arn:aws:iam::123:role/nodes''\<rparr>"

definition adminRole :: MapIdentity where
  "adminRole = \<lparr>Username = ''admin'', Groups = [''system:masters''],
                ARN = ''arn:aws:iam::123:role/admin''\<rparr>"

text \<open>
  An instance of the parameter of the second listing, to run it on concrete inputs: an
  identity is a \<open>MapIdentity\<close>, its ARN is accepted when it has six portions, the sixth
  portion decides the kind as in the first listing, and it is stored in the documented
  format.
\<close>

definition portions_iam :: "(MapIdentity, string) iam" where
  "portions_iam =
     \<lparr>identity_ARN = (\<lambda>m. if length (Split CHR '':'' (ARN m)) < 6
                          then Inl (IamError ''malformed arn'') else Inr (ARN m)),
      identity_Valid = (\<lambda>m. let ps = Split CHR '':'' (ARN m)
                            in if length ps < 6 then Some (IamError ''malformed arn'')
                               else if ps ! 5 = ''role'' \<or> ps ! 5 = ''user'' then None
                               else Some (IamError ''neither role nor user'')),
      arn_Role = (\<lambda>s. Split CHR '':'' s ! 5 = ''role''),
      arn_User = (\<lambda>s. Split CHR '':'' s ! 5 = ''user''),
      arn_String = (\<lambda>s. s),
      arn_Resource = (\<lambda>s. Split CHR '':'' s ! 5),
      identity_marshal = (\<lambda>m. if Split CHR '':'' (ARN m) ! 5 = ''user''
                              then as_userarn m else as_rolearn m),
      identity_unmarshal = UnmarshalJSON\<rparr>"

text \<open>A ConfigMap that exists remotely: it carries the UID handed out by \<open>echoClient\<close>.\<close>

definition created :: ConfigMap where
  "created = \<lparr>ObjectMeta = \<lparr>Name = ObjectName, Namespace = ObjectNamespace, UID = ''uid-1''\<rparr>,
              Data = Some \<lparr>mapRoles = Some [as_rolearn nodes], mapUsers = Some [],
                           mapAccounts = Some []\<rparr>\<rparr>"

section \<open>Properties\<close>

subsection \<open>The account list\<close>

lemma removeLoop_eq:
  "removeLoop account xs newaccounts found =
     (newaccounts @ filter (\<lambda>x. x \<noteq> account) xs, found \<or> account \<in> set xs)"
  by (induction xs arbitrary: newaccounts found) auto

lemma NewString_List_props:
  "sorted (NewString_List xs)" "distinct (NewString_List xs)" "set (NewString_List xs) = set xs"
  by (simp_all add: NewString_List_def)

lemma NewString_List_absorb:
  assumes "sorted ys" "distinct ys" "x \<in> set ys"
  shows "NewString_List (ys @ [x]) = ys"
proof -
  have "set (NewString_List (ys @ [x])) = set ys"
    using assms(3) by (auto simp: NewString_List_props)
  then show ?thesis
    using assms(1,2) NewString_List_props(1,2) sorted_distinct_set_unique by blast
qed

lemma filter_sort_remdups:
  fixes xs :: "string list"
  shows "filter P (sort (remdups xs)) = sort (remdups (filter P xs))"
proof (rule sorted_distinct_set_unique)
  show "sorted (filter P (sort (remdups xs)))" by (simp add: sorted_wrt_filter)
  show "distinct (filter P (sort (remdups xs)))" by simp
  show "sorted (sort (remdups (filter P xs)))" by simp
  show "distinct (sort (remdups (filter P xs)))" by simp
  show "set (filter P (sort (remdups xs))) = set (sort (remdups (filter P xs)))" by simp
qed

lemma accounts_written:
  "setAccounts xs a = Inr a' \<Longrightarrow> accounts a' = Inr xs"
  by (auto simp: setAccounts_def writeData_def accounts_def readData_def
           split: option.splits)

lemma setAccounts_twice:
  "setAccounts xs a = Inr a' \<Longrightarrow> setAccounts xs a' = Inr a'"
  by (auto simp: setAccounts_def writeData_def split: option.splits)

lemma setAccounts_snapshot:
  "snapshot a = Some d \<Longrightarrow>
     \<exists>a'. setAccounts xs a = Inr a' \<and> snapshot a' = Some (d\<lparr>mapAccounts := Some xs\<rparr>)"
  by (auto simp: setAccounts_def writeData_def snapshot_def split: option.splits)

lemma accounts_snapshot:
  "snapshot a = Some d \<Longrightarrow>
     accounts a = (case mapAccounts d of
                     None \<Rightarrow> Inl (DecodeError ''mapAccounts'')
                   | Some xs \<Rightarrow> Inr xs)"
  by (auto simp: accounts_def readData_def snapshot_def split: option.splits)

text \<open>
  C5. Whatever sequence \<open>xs\<close> the accounts key held (in any order, with or without
  repetitions), a successful \<open>AddAccount\<close> leaves a sequence \<open>ys\<close> that is in increasing
  order, has no repetition and holds the old accounts and the new one. A second
  \<open>AddAccount\<close> of the same account then changes nothing at all.
\<close>

theorem AddAccount_normalises:
  assumes "AddAccount account a = Inr a'"
  shows "\<exists>xs ys. accounts a = Inr xs \<and> accounts a' = Inr ys \<and>
           sorted ys \<and> distinct ys \<and> set ys = insert account (set xs) \<and>
           AddAccount account a' = Inr a'"
proof -
  from assms obtain xs where xs: "accounts a = Inr xs"
    and w: "setAccounts (NewString_List (xs @ [account])) a = Inr a'"
    by (auto simp: AddAccount_def split: sum.splits)
  let ?ys = "NewString_List (xs @ [account])"
  have ys: "accounts a' = Inr ?ys" using w by (rule accounts_written)
  have p: "sorted ?ys" "distinct ?ys" "set ?ys = insert account (set xs)"
    by (auto simp: NewString_List_props)
  have "NewString_List (?ys @ [account]) = ?ys"
    using p by (intro NewString_List_absorb) auto
  then have "AddAccount account a' = Inr a'"
    using ys setAccounts_twice [OF w] by (simp add: AddAccount_def)
  with xs ys p show ?thesis by blast
qed

theorem AddAccount_normalises_witness:
  "AddAccount ''200'' (holding [] [] [''300'', ''100'', ''300'']) =
     Inr (holding [] [] [''100'', ''200'', ''300'']) \<and>
   accounts (holding [] [] [''100'', ''200'', ''300'']) =
     Inr [''100'', ''200'', ''300''] \<and>
   AddAccount ''200'' (holding [] [] [''100'', ''200'', ''300'']) =
     Inr (holding [] [] [''100'', ''200'', ''300''])"
proof -
  have h: "AddAccount ''200'' (holding [] [] [''300'', ''100'', ''300'']) =
             Inr (holding [] [] [''100'', ''200'', ''300''])"
    by (simp add: AddAccount_def accounts_def readData_def setAccounts_def writeData_def
          holding_def NewString_List_def)
  show ?thesis
    using h AddAccount_normalises [OF h] by (simp add: accounts_def readData_def holding_def)
qed

text \<open>
  C6, as amended. When the account is not among the stored ones, \<open>AddAccount\<close> followed
  by \<open>RemoveAccount\<close> of the same account (\<open>111\<close> in particular) succeeds and leaves
  the accounts that were stored: the same set, written in increasing order without
  repetition.
\<close>

theorem Add_then_RemoveAccount:
  assumes "snapshot a = Some d" and "mapAccounts d = Some xs" and "account \<notin> set xs"
  shows "\<exists>a1 a2 ys. AddAccount account a = Inr a1 \<and> RemoveAccount account a1 = Inr a2 \<and>
           accounts a2 = Inr ys \<and> set ys = set xs \<and> ys = sort (remdups xs)"
proof -
  let ?zs = "NewString_List (xs @ [account])"
  have acc: "accounts a = Inr xs"
    using assms(1,2) by (simp add: accounts_snapshot)
  obtain a1 where a1: "setAccounts ?zs a = Inr a1"
    and s1: "snapshot a1 = Some (d\<lparr>mapAccounts := Some ?zs\<rparr>)"
    using setAccounts_snapshot [OF assms(1)] by blast
  have add: "AddAccount account a = Inr a1"
    using acc a1 by (simp add: AddAccount_def)
  have acc1: "accounts a1 = Inr ?zs"
    using a1 by (rule accounts_written)
  let ?ys = "filter (\<lambda>x. x \<noteq> account) ?zs"
  obtain a2 where a2: "setAccounts ?ys a1 = Inr a2"
    using setAccounts_snapshot [OF s1] by blast
  have "account \<in> set ?zs" by (simp add: NewString_List_props)
  then have rem: "RemoveAccount account a1 = Inr a2"
    using acc1 a2 by (simp add: RemoveAccount_def removeLoop_eq)
  have acc2: "accounts a2 = Inr ?ys"
    using a2 by (rule accounts_written)
  have "?ys = sort (remdups (filter (\<lambda>x. x \<noteq> account) (xs @ [account])))"
    unfolding NewString_List_def by (rule filter_sort_remdups)
  also have "filter (\<lambda>x. x \<noteq> account) (xs @ [account]) = xs"
    using assms(3) by (auto simp: filter_id_conv)
  finally have ys: "?ys = sort (remdups xs)" .
  then have "set ?ys = set xs" by simp
  with add rem acc2 ys show ?thesis by blast
qed

theorem Add_then_RemoveAccount_witness:
  "snapshot (holding [] [] [''300'', ''100'', ''300'']) =
     Some \<lparr>mapRoles = Some [], mapUsers = Some [], mapAccounts = Some [''300'', ''100'', ''300'']\<rparr> \<and>
   ''111'' \<notin> set [''300'', ''100'', ''300''] \<and>
   (\<exists>a1 a2. AddAccount ''111'' (holding [] [] [''300'', ''100'', ''300'']) = Inr a1 \<and>
      RemoveAccount ''111'' a1 = Inr a2 \<and> accounts a2 = Inr [''100'', ''300''])"
  using Add_then_RemoveAccount
          [of "holding [] [] [''300'', ''100'', ''300'']" _
              "[''300'', ''100'', ''300'']" "''111''"]
  by (auto simp: holding_def snapshot_def)

text \<open>
  The claim without the amendment fails when \<open>111\<close> is already stored: \<open>AddAccount\<close>
  leaves the single entry as it is, and \<open>RemoveAccount\<close> then removes it.
\<close>

theorem Add_then_RemoveAccount_counterexample:
  "accounts (holding [] [] [''111'']) = Inr [''111''] \<and>
   AddAccount ''111'' (holding [] [] [''111'']) = Inr (holding [] [] [''111'']) \<and>
   RemoveAccount ''111'' (holding [] [] [''111'']) = Inr (holding [] [] []) \<and>
   accounts (holding [] [] []) = Inr [] \<and>
   set ([] :: string list) \<noteq> set [''111'']"
  by (simp add: holding_def accounts_def readData_def AddAccount_def RemoveAccount_def
        setAccounts_def writeData_def NewString_List_def)

subsection \<open>Saving\<close>

text \<open>
  C8. \<open>Save\<close> on a held ConfigMap \<open>c\<close> makes a create call exactly when the UID of \<open>c\<close>
  is empty. After a create the held ConfigMap is the one the client returned, UID
  included. Otherwise the call is an update that sends \<open>c\<close>, which carries the UID held.
\<close>

theorem Save_create_or_update:
  assumes "cm a = Some c"
  shows "\<exists>s. Save a = Inr s \<and>
           ((performed s = CreateCall c) = (UID (ObjectMeta c) = '''')) \<and>
           (UID (ObjectMeta c) = '''' \<longrightarrow>
              cm (after s) = fst (Create (client a) c) \<and> failure s = snd (Create (client a) c)) \<and>
           (UID (ObjectMeta c) \<noteq> '''' \<longrightarrow>
              performed s = UpdateCall c \<and>
              cm (after s) = fst (Update (client a) c) \<and> failure s = snd (Update (client a) c))"
  using assms by (auto simp: Save_def split: prod.splits)

theorem Save_create_or_update_witness:
  "cm (holding [as_rolearn nodes] [] []) = Some (created\<lparr>ObjectMeta := ObjectMeta_new\<rparr>) \<and>
   Save (holding [as_rolearn nodes] [] []) =
     Inr \<lparr>after = \<lparr>client = echoClient, cm = Some created\<rparr>,
          performed = CreateCall (created\<lparr>ObjectMeta := ObjectMeta_new\<rparr>), failure = None\<rparr> \<and>
   Save \<lparr>client = echoClient, cm = Some created\<rparr> =
     Inr \<lparr>after = \<lparr>client = echoClient, cm = Some created\<rparr>,
          performed = UpdateCall created, failure = None\<rparr>"
  using Save_create_or_update [of "holding [as_rolearn nodes] [] []" "created\<lparr>ObjectMeta := ObjectMeta_new\<rparr>"]
        Save_create_or_update [of "\<lparr>client = echoClient, cm = Some created\<rparr>" created]
  by (simp add: Save_def holding_def created_def echoClient_def ObjectMeta_new_def)

text \<open>
  C10. \<open>New\<close> on a ConfigMap whose \<open>Data\<close> is nil replaces its metadata by
  \<open>ObjectMeta()\<close>, whatever UID it carried, so the UID held is empty and \<open>Save\<close> makes a
  create call.
\<close>

theorem New_nil_Data_resets_metadata:
  assumes "Data c = None"
  shows "\<exists>c' s. cm (New cl (Some c)) = Some c' \<and> ObjectMeta c' = ObjectMeta_new \<and>
           UID (ObjectMeta c') = '''' \<and> Data c' = Some emptyData \<and>
           Save (New cl (Some c)) = Inr s \<and> performed s = CreateCall c'"
  using assms by (auto simp: New_def Save_def ObjectMeta_new_def Let_def split: prod.splits)

theorem New_nil_Data_resets_metadata_witness:
  "Data (created\<lparr>Data := None\<rparr>) = None \<and> UID (ObjectMeta (created\<lparr>Data := None\<rparr>)) = ''uid-1'' \<and>
   cm (New echoClient (Some (created\<lparr>Data := None\<rparr>))) =
     Some \<lparr>ObjectMeta = ObjectMeta_new, Data = Some emptyData\<rparr> \<and>
   (\<exists>s. Save (New echoClient (Some (created\<lparr>Data := None\<rparr>))) = Inr s \<and>
      performed s = CreateCall \<lparr>ObjectMeta = ObjectMeta_new, Data = Some emptyData\<rparr>)"
  using New_nil_Data_resets_metadata [of "created\<lparr>Data := None\<rparr>" echoClient]
  by (auto simp: New_def created_def)

subsection \<open>Reading and writing the identity keys\<close>

lemma snapshotE:
  assumes "snapshot a = Some d"
  obtains c where "cm a = Some c" "Data c = Some d"
  using assms by (auto simp: snapshot_def split: option.splits)

lemma storeIdentities_Inr:
  "storeIdentities rs us a = Inr a' \<longleftrightarrow>
     (\<exists>c d. cm a = Some c \<and> Data c = Some d \<and>
        a' = a\<lparr>cm := Some (c\<lparr>Data := Some (d\<lparr>mapRoles := Some rs, mapUsers := Some us\<rparr>)\<rparr>)\<rparr>)"
  by (auto simp: storeIdentities_def writeData_def split: option.splits sum.splits)

lemma storeIdentities_snapshot:
  assumes "snapshot a = Some d"
  shows "\<exists>a'. storeIdentities rs us a = Inr a' \<and>
           snapshot a' = Some (d\<lparr>mapRoles := Some rs, mapUsers := Some us\<rparr>)"
proof -
  from assms obtain c where c: "cm a = Some c" "Data c = Some d" by (rule snapshotE)
  let ?a' = "a\<lparr>cm := Some (c\<lparr>Data := Some (d\<lparr>mapRoles := Some rs, mapUsers := Some us\<rparr>)\<rparr>)\<rparr>"
  have "storeIdentities rs us a = Inr ?a'" using c by (simp add: storeIdentities_Inr)
  moreover have "snapshot ?a' = Some (d\<lparr>mapRoles := Some rs, mapUsers := Some us\<rparr>)"
    by (simp add: snapshot_def)
  ultimately show ?thesis by blast
qed

lemma storeIdentities_written:
  assumes "storeIdentities rs us a = Inr a'"
  shows "\<exists>d. snapshot a' = Some d \<and> mapRoles d = Some rs \<and> mapUsers d = Some us"
  using assms by (auto simp: storeIdentities_Inr snapshot_def)

lemma storeIdentities_same:
  assumes "snapshot a = Some d" "mapRoles d = Some rs" "mapUsers d = Some us"
  shows "storeIdentities rs us a = Inr a"
  using assms by (auto simp: storeIdentities_Inr snapshot_def split: option.splits)

lemma readIdentities_snapshot:
  assumes "snapshot a = Some d" "mapRoles d = Some rs" "mapUsers d = Some us"
  shows "readIdentities decode a =
           (case unmarshalKey decode ''mapRoles'' (Some rs) of
              Inl e \<Rightarrow> Inl e
            | Inr roles \<Rightarrow>
                (case unmarshalKey decode ''mapUsers'' (Some us) of
                   Inl e \<Rightarrow> Inl e
                 | Inr users \<Rightarrow> Inr (roles @ users)))"
  using assms
  by (auto simp: readIdentities_def readData_def snapshot_def split: option.splits sum.splits)

lemma keys_classifiedE:
  assumes "keys_classified marshal isRole isUser rs us a"
  obtains d where "snapshot a = Some d" "mapRoles d = Some (map marshal rs)"
    "mapUsers d = Some (map marshal us)" "\<forall>x\<in>set rs. isRole x" "\<forall>x\<in>set us. isUser x"
  using assms by (auto simp: keys_classified_def list_all_iff split: option.splits)

lemma keys_classifiedI:
  "snapshot a = Some d \<Longrightarrow> mapRoles d = Some (map marshal rs) \<Longrightarrow>
     mapUsers d = Some (map marshal us) \<Longrightarrow> \<forall>x\<in>set rs. isRole x \<Longrightarrow> \<forall>x\<in>set us. isUser x \<Longrightarrow>
     keys_classified marshal isRole isUser rs us a"
  by (simp add: keys_classified_def list_all_iff)

subsection \<open>The codec\<close>

lemma unmarshalAll_round_trip:
  assumes "\<forall>x\<in>set xs. decode (marshal x) = Inr x"
  shows "unmarshalAll decode (map marshal xs) = Inr xs"
  using assms by (induction xs) auto

lemma unmarshalAll_rejects:
  assumes "x \<in> set es" "decode x = Inl err"
  shows "\<exists>err'. unmarshalAll decode es = Inl err'"
  using assms by (induction es) (auto split: sum.splits)

text \<open>The decoder of the first listing reads the documented format.\<close>

lemma UnmarshalJSON_documented:
  "UnmarshalJSON (as_rolearn m) = Inr m" "UnmarshalJSON (as_userarn m) = Inr m"
  by (simp_all add: UnmarshalJSON_def unmarshal_Identity_def as_rolearn_def as_userarn_def)

text \<open>It rejects every mapping that the first listing writes.\<close>

lemma UnmarshalJSON_marshalIdentity: "UnmarshalJSON (marshalIdentity m) = Inl MissingArn"
  by (simp add: UnmarshalJSON_def marshalIdentity_def)

lemma unmarshalAll_marshalIdentity:
  "unmarshalAll UnmarshalJSON (map marshalIdentity xs) = (if xs = [] then Inr [] else Inl MissingArn)"
  by (cases xs) (simp_all add: UnmarshalJSON_marshalIdentity)

lemma unmarshalAll_documented:
  "unmarshalAll UnmarshalJSON (map as_rolearn xs) = Inr xs"
  "unmarshalAll UnmarshalJSON (map as_userarn xs) = Inr xs"
  by (simp_all add: unmarshalAll_round_trip UnmarshalJSON_documented)

subsection \<open>Lists of roles followed by users\<close>

lemma roles_users_delete:
  assumes "rs @ us = pre @ x # post" "\<forall>x\<in>set rs. R x" "\<forall>x\<in>set us. U x"
  shows "\<exists>rs' us'. pre @ post = rs' @ us' \<and> (\<forall>x\<in>set rs'. R x) \<and> (\<forall>x\<in>set us'. U x)"
proof -
  from assms(1) consider
    (left) t where "rs = pre @ x # t" "post = t @ us"
  | (right) t where "pre = rs @ t" "us = t @ x # post"
    by (auto simp: append_eq_append_conv2 append_eq_Cons_conv Cons_eq_append_conv)
  then show ?thesis
  proof cases
    case left
    then have "pre @ post = (pre @ t) @ us" "\<forall>x\<in>set (pre @ t). R x"
      using assms(2) by auto
    with assms(3) show ?thesis by blast
  next
    case right
    then have "pre @ post = rs @ (t @ post)" "\<forall>x\<in>set (t @ post). U x"
      using assms(3) by auto
    with assms(2) show ?thesis by blast
  qed
qed

subsection \<open>First listing: what is written\<close>

lemma Role_not_User: "Role m \<Longrightarrow> \<not> User m"
  by (simp add: Role_def User_def)

lemma splitIdentities_eq:
  "splitIdentities xs users roles = (users @ filter User xs, roles @ filter Role xs)"
  by (induction xs arbitrary: users roles) auto

lemma setIdentities_eq:
  "setIdentities xs a =
     storeIdentities (map marshalIdentity (filter Role xs)) (map marshalIdentity (filter User xs)) a"
  by (simp add: setIdentities_def splitIdentities_eq)

lemma setIdentities_classified:
  assumes "setIdentities xs a = Inr a'"
  shows "keys_classified marshalIdentity Role User (filter Role xs) (filter User xs) a'"
proof -
  from assms have "storeIdentities (map marshalIdentity (filter Role xs))
      (map marshalIdentity (filter User xs)) a = Inr a'"
    by (simp add: setIdentities_eq)
  then obtain d where "snapshot a' = Some d"
    "mapRoles d = Some (map marshalIdentity (filter Role xs))"
    "mapUsers d = Some (map marshalIdentity (filter User xs))"
    using storeIdentities_written by blast
  then show ?thesis by (auto intro: keys_classifiedI)
qed

lemma AddIdentity_classified:
  assumes "AddIdentity arn username groups a = Inr a'"
  shows "\<exists>roles users. keys_classified marshalIdentity Role User roles users a'"
  using assms
  by (auto simp: AddIdentity_def split: sum.splits dest: setIdentities_classified)

lemma RemoveIdentity_classified:
  assumes "RemoveIdentity arn all a = Inr a'"
  shows "\<exists>roles users. keys_classified marshalIdentity Role User roles users a'"
  using assms
  by (auto simp: RemoveIdentity_def split: sum.splits scan.splits if_splits
           dest: setIdentities_classified)

lemma scanIdentities_first:
  assumes "\<forall>y\<in>set pre. ARN y \<noteq> arn" "ARN x = arn"
  shows "scanIdentities arn False i (pre @ x # post) new = Found (i + length pre)"
  using assms by (induction pre arbitrary: i new) auto

lemma scanIdentities_none:
  assumes "\<forall>y\<in>set xs. ARN y \<noteq> arn"
  shows "scanIdentities arn False i xs new = Finished new"
  using assms by (induction xs arbitrary: i new) auto

lemma scanIdentities_all:
  "scanIdentities arn True i xs new = Finished (new @ filter (\<lambda>y. ARN y \<noteq> arn) xs)"
  by (induction xs arbitrary: i new) auto

lemma scanIdentities_not_Failed: "scanIdentities arn all i xs new \<noteq> Failed e"
  by (induction xs arbitrary: i new) auto

text \<open>
  What the first listing has written it cannot read: after a write that stored at least
  one mapping, \<open>Identities\<close> fails.
\<close>

lemma Identities_after_write:
  assumes "keys_classified marshalIdentity Role User roles users a"
  shows "Identities a =
           (if roles = [] then (if users = [] then Inr [] else Inl (DecodeError ''mapUsers''))
            else Inl (DecodeError ''mapRoles''))"
proof -
  from assms obtain d where d: "snapshot a = Some d" "mapRoles d = Some (map marshalIdentity roles)"
    "mapUsers d = Some (map marshalIdentity users)"
    by (rule keys_classifiedE)
  show ?thesis
    unfolding Identities_def readIdentities_snapshot [OF d]
    by (simp add: unmarshalKey_def unmarshalAll_marshalIdentity)
qed

subsection \<open>Second listing: what is written\<close>

lemma Role_iam_not_User_iam: "Role_iam ops x \<Longrightarrow> \<not> User_iam ops x"
  by (auto simp: Role_iam_def User_iam_def split: sum.splits)

lemma splitIdentities_iam_Inr:
  assumes "splitIdentities_iam ops xs users roles = Inr (users', roles')"
  shows "users' = users @ filter (User_iam ops) xs \<and> roles' = roles @ filter (Role_iam ops) xs"
  using assms
proof (induction xs arbitrary: users roles)
  case Nil
  then show ?case by simp
next
  case (Cons x xs)
  then obtain arn where arn: "identity_ARN ops x = Inr arn"
    by (auto split: sum.splits)
  show ?case
  proof (cases "arn_Role ops arn")
    case True
    with Cons.prems arn
    have "splitIdentities_iam ops xs users (roles @ [x]) = Inr (users', roles')" by simp
    from Cons.IH [OF this] True arn show ?thesis
      by (simp add: Role_iam_def User_iam_def)
  next
    case False
    with Cons.prems arn
    have u: "arn_User ops arn"
      and "splitIdentities_iam ops xs (users @ [x]) roles = Inr (users', roles')"
      by (auto split: if_splits)
    from Cons.IH [OF this(2)] False u arn show ?thesis
      by (simp add: Role_iam_def User_iam_def)
  qed
qed

lemma splitIdentities_iam_classified:
  assumes "\<forall>x\<in>set xs. Role_iam ops x \<or> User_iam ops x"
  shows "splitIdentities_iam ops xs users roles =
           Inr (users @ filter (User_iam ops) xs, roles @ filter (Role_iam ops) xs)"
  using assms
  by (induction xs arbitrary: users roles)
     (auto simp: Role_iam_def User_iam_def split: sum.splits)

text \<open>The second \<open>setIdentities\<close> fails on a list with a mapping that is neither.\<close>

lemma splitIdentities_iam_unclassified:
  assumes "x \<in> set xs" "\<not> Role_iam ops x" "\<not> User_iam ops x"
  shows "\<exists>e. splitIdentities_iam ops xs users roles = Inl e"
  using assms
  by (induction xs arbitrary: users roles)
     (auto simp: Role_iam_def User_iam_def split: sum.splits)

lemma setIdentities_iam_unclassified:
  assumes "x \<in> set xs" "\<not> Role_iam ops x" "\<not> User_iam ops x"
  shows "\<exists>e. setIdentities_iam ops xs a = Inl e"
  using splitIdentities_iam_unclassified [OF assms, of "[]" "[]"]
  by (auto simp: setIdentities_iam_def)

lemma setIdentities_iam_classified:
  assumes "setIdentities_iam ops xs a = Inr a'"
  shows "keys_classified (identity_marshal ops) (Role_iam ops) (User_iam ops)
           (filter (Role_iam ops) xs) (filter (User_iam ops) xs) a'"
proof -
  from assms obtain us rs where s: "splitIdentities_iam ops xs [] [] = Inr (us, rs)"
    and w: "storeIdentities (map (identity_marshal ops) rs) (map (identity_marshal ops) us) a = Inr a'"
    by (auto simp: setIdentities_iam_def split: sum.splits)
  from s have "us = filter (User_iam ops) xs" "rs = filter (Role_iam ops) xs"
    using splitIdentities_iam_Inr by fastforce+
  moreover obtain d where "snapshot a' = Some d" "mapRoles d = Some (map (identity_marshal ops) rs)"
    "mapUsers d = Some (map (identity_marshal ops) us)"
    using storeIdentities_written [OF w] by blast
  ultimately show ?thesis by (auto intro: keys_classifiedI)
qed

lemma setIdentities_iam_filed:
  assumes "\<forall>x\<in>set rs. Role_iam ops x" "\<forall>x\<in>set us. User_iam ops x"
  shows "setIdentities_iam ops (rs @ us) a =
           storeIdentities (map (identity_marshal ops) rs) (map (identity_marshal ops) us) a"
proof -
  have "filter (Role_iam ops) (rs @ us) = rs" "filter (User_iam ops) (rs @ us) = us"
    using assms by (auto simp: filter_id_conv filter_empty_conv dest: Role_iam_not_User_iam)
  moreover have "\<forall>x\<in>set (rs @ us). Role_iam ops x \<or> User_iam ops x"
    using assms by auto
  ultimately show ?thesis
    by (simp add: setIdentities_iam_def splitIdentities_iam_classified del: filter_append)
qed

lemma AddIdentity_iam_classified:
  assumes "AddIdentity_iam ops identity a = Inr a'"
  shows "\<exists>roles users.
           keys_classified (identity_marshal ops) (Role_iam ops) (User_iam ops) roles users a'"
  using assms
  by (auto simp: AddIdentity_iam_def split: sum.splits option.splits
           dest: setIdentities_iam_classified)

lemma RemoveIdentity_iam_classified:
  assumes "RemoveIdentity_iam ops arn all a = Inr a'"
  shows "\<exists>roles users.
           keys_classified (identity_marshal ops) (Role_iam ops) (User_iam ops) roles users a'"
  using assms
  by (auto simp: RemoveIdentity_iam_def split: sum.splits scan.splits if_splits
           dest: setIdentities_iam_classified)

subsection \<open>Second listing: removing and adding\<close>

text \<open>
  The lemmas of this part are about a state whose keys hold what the second listing
  writes for the roles \<open>rs\<close> and the users \<open>us\<close>, and about an \<open>iam.Identity\<close> that is read
  back as it was written.
\<close>

lemma Identities_iam_written:
  assumes "keys_classified (identity_marshal ops) (Role_iam ops) (User_iam ops) rs us a"
    "\<forall>x. identity_unmarshal ops (identity_marshal ops x) = Inr x"
  shows "Identities_iam ops a = Inr (rs @ us)"
proof -
  from assms(1) obtain d where d: "snapshot a = Some d"
    "mapRoles d = Some (map (identity_marshal ops) rs)"
    "mapUsers d = Some (map (identity_marshal ops) us)"
    by (rule keys_classifiedE)
  show ?thesis
    unfolding Identities_iam_def readIdentities_snapshot [OF d]
    using assms(2) by (simp add: unmarshalKey_def unmarshalAll_round_trip)
qed

lemma storeIdentities_classified:
  assumes "snapshot a = Some d" "\<forall>x\<in>set rs. isRole x" "\<forall>x\<in>set us. isUser x"
  shows "\<exists>a'. storeIdentities (map marshal rs) (map marshal us) a = Inr a' \<and>
           keys_classified marshal isRole isUser rs us a'"
proof -
  obtain a' where a': "storeIdentities (map marshal rs) (map marshal us) a = Inr a'"
    "snapshot a' = Some (d\<lparr>mapRoles := Some (map marshal rs), mapUsers := Some (map marshal us)\<rparr>)"
    using storeIdentities_snapshot [OF assms(1)] by blast
  have "keys_classified marshal isRole isUser rs us a'"
    using a'(2) assms(2,3) by (auto intro: keys_classifiedI)
  with a'(1) show ?thesis by blast
qed

lemma scanIdentities_iam_first:
  assumes "\<forall>y\<in>set pre. (Role_iam ops y \<or> User_iam ops y) \<and> principal_iam ops y \<noteq> Some arn"
    "principal_iam ops x = Some arn"
  shows "scanIdentities_iam ops arn False i (pre @ x # post) new = Found (i + length pre)"
  using assms
  by (induction pre arbitrary: i new)
     (auto simp: principal_iam_def Role_iam_def User_iam_def split: sum.splits)

lemma scanIdentities_iam_none:
  assumes "\<forall>y\<in>set xs. (Role_iam ops y \<or> User_iam ops y) \<and> principal_iam ops y \<noteq> Some arn"
  shows "scanIdentities_iam ops arn False i xs new = Finished new"
  using assms
  by (induction xs arbitrary: i new)
     (auto simp: principal_iam_def Role_iam_def User_iam_def split: sum.splits)

lemma scanIdentities_iam_all:
  assumes "\<forall>y\<in>set xs. Role_iam ops y \<or> User_iam ops y"
  shows "scanIdentities_iam ops arn True i xs new =
           Finished (new @ filter (\<lambda>y. principal_iam ops y \<noteq> Some arn) xs)"
  using assms
  by (induction xs arbitrary: i new)
     (auto simp: principal_iam_def Role_iam_def User_iam_def split: sum.splits)

text \<open>
  With \<open>all\<close> false the second listing removes the first mapping that has the ARN and
  keeps the others in their order; without a match it returns the not-found error.
\<close>

lemma RemoveIdentity_iam_first_match:
  assumes k: "keys_classified (identity_marshal ops) (Role_iam ops) (User_iam ops) rs us a"
    and rt: "\<forall>x. identity_unmarshal ops (identity_marshal ops x) = Inr x"
    and ids: "rs @ us = pre @ x # post"
    and x: "principal_iam ops x = Some arn"
    and pre: "\<forall>y\<in>set pre. principal_iam ops y \<noteq> Some arn"
  shows "\<exists>a'. RemoveIdentity_iam ops arn False a = Inr a' \<and>
           Identities_iam ops a' = Inr (pre @ post)"
proof -
  from k obtain d where d: "snapshot a = Some d"
    and cl: "\<forall>x\<in>set rs. Role_iam ops x" "\<forall>x\<in>set us. User_iam ops x"
    by (rule keys_classifiedE)
  obtain rs' us' where split: "pre @ post = rs' @ us'"
    "\<forall>x\<in>set rs'. Role_iam ops x" "\<forall>x\<in>set us'. User_iam ops x"
    using roles_users_delete [OF ids cl] by blast
  obtain a' where a': "storeIdentities (map (identity_marshal ops) rs')
      (map (identity_marshal ops) us') a = Inr a'"
    "keys_classified (identity_marshal ops) (Role_iam ops) (User_iam ops) rs' us' a'"
    using storeIdentities_classified [OF d split(2,3)] by blast
  have "\<forall>y\<in>set (rs @ us). Role_iam ops y \<or> User_iam ops y"
    using cl by auto
  then have "\<forall>y\<in>set pre. (Role_iam ops y \<or> User_iam ops y) \<and> principal_iam ops y \<noteq> Some arn"
    using pre unfolding ids by auto
  then have "scanIdentities_iam ops arn False 0 (pre @ x # post) [] = Found (length pre)"
    using scanIdentities_iam_first [OF _ x, of pre 0 post "[]"] by simp
  then have "RemoveIdentity_iam ops arn False a = Inr a'"
    using Identities_iam_written [OF k rt] a'(1) split ids
    by (simp add: RemoveIdentity_iam_def setIdentities_iam_filed)
  moreover have "Identities_iam ops a' = Inr (pre @ post)"
    using Identities_iam_written [OF a'(2) rt] split(1) by simp
  ultimately show ?thesis by blast
qed

lemma RemoveIdentity_iam_no_match:
  assumes k: "keys_classified (identity_marshal ops) (Role_iam ops) (User_iam ops) rs us a"
    and rt: "\<forall>x. identity_unmarshal ops (identity_marshal ops x) = Inr x"
    and none: "\<forall>y\<in>set (rs @ us). principal_iam ops y \<noteq> Some arn"
  shows "RemoveIdentity_iam ops arn False a = Inl (NotFoundError arn)"
proof -
  from k obtain d where cl: "\<forall>x\<in>set rs. Role_iam ops x" "\<forall>x\<in>set us. User_iam ops x"
    by (rule keys_classifiedE)
  have "\<forall>y\<in>set (rs @ us). (Role_iam ops y \<or> User_iam ops y) \<and> principal_iam ops y \<noteq> Some arn"
    using cl none by auto
  then have "scanIdentities_iam ops arn False 0 (rs @ us) [] = Finished []"
    by (rule scanIdentities_iam_none)
  then show ?thesis
    using Identities_iam_written [OF k rt] by (simp add: RemoveIdentity_iam_def)
qed

text \<open>
  With \<open>all\<close> true it removes every mapping that has the ARN and succeeds also without
  a match, in which case the state is as before.
\<close>

lemma RemoveIdentity_iam_all:
  assumes k: "keys_classified (identity_marshal ops) (Role_iam ops) (User_iam ops) rs us a"
    and rt: "\<forall>x. identity_unmarshal ops (identity_marshal ops x) = Inr x"
  shows "\<exists>a'. RemoveIdentity_iam ops arn True a = Inr a' \<and>
           Identities_iam ops a' = Inr (filter (\<lambda>y. principal_iam ops y \<noteq> Some arn) (rs @ us)) \<and>
           ((\<forall>y\<in>set (rs @ us). principal_iam ops y \<noteq> Some arn) \<longrightarrow> a' = a)"
proof -
  from k obtain d where d: "snapshot a = Some d"
    "mapRoles d = Some (map (identity_marshal ops) rs)"
    "mapUsers d = Some (map (identity_marshal ops) us)"
    and cl: "\<forall>x\<in>set rs. Role_iam ops x" "\<forall>x\<in>set us. User_iam ops x"
    by (rule keys_classifiedE)
  let ?keep = "\<lambda>y. principal_iam ops y \<noteq> Some arn"
  have cl': "\<forall>x\<in>set (filter ?keep rs). Role_iam ops x" "\<forall>x\<in>set (filter ?keep us). User_iam ops x"
    using cl by auto
  obtain a' where a': "storeIdentities (map (identity_marshal ops) (filter ?keep rs))
      (map (identity_marshal ops) (filter ?keep us)) a = Inr a'"
    "keys_classified (identity_marshal ops) (Role_iam ops) (User_iam ops)
       (filter ?keep rs) (filter ?keep us) a'"
    using storeIdentities_classified [OF d(1) cl'] by blast
  have all: "\<forall>y\<in>set (rs @ us). Role_iam ops y \<or> User_iam ops y"
    using cl by auto
  have set: "setIdentities_iam ops (filter ?keep rs @ filter ?keep us) a = Inr a'"
    using a'(1) cl' by (simp add: setIdentities_iam_filed)
  have scan: "scanIdentities_iam ops arn True 0 (rs @ us) [] = Finished (filter ?keep (rs @ us))"
    using scanIdentities_iam_all [OF all, of arn 0 "[]"] by simp
  have rem: "RemoveIdentity_iam ops arn True a = Inr a'"
    using Identities_iam_written [OF k rt] set scan by (simp add: RemoveIdentity_iam_def)
  have after: "Identities_iam ops a' = Inr (filter ?keep (rs @ us))"
    using Identities_iam_written [OF a'(2) rt] by simp
  have "a' = a" if none: "\<forall>y\<in>set (rs @ us). principal_iam ops y \<noteq> Some arn"
  proof -
    have "filter ?keep rs = rs" "filter ?keep us = us"
      using none by (auto simp: filter_id_conv)
    then have "storeIdentities (map (identity_marshal ops) rs) (map (identity_marshal ops) us) a = Inr a'"
      using a'(1) by simp
    moreover have "storeIdentities (map (identity_marshal ops) rs) (map (identity_marshal ops) us) a = Inr a"
      using d by (rule storeIdentities_same)
    ultimately show ?thesis by simp
  qed
  with rem after show ?thesis by blast
qed

text \<open>
  Adding a valid mapping whose ARN is not stored and removing it again gives back the
  state, and so the identity list.
\<close>

lemma Add_then_RemoveIdentity_iam:
  assumes k: "keys_classified (identity_marshal ops) (Role_iam ops) (User_iam ops) rs us a"
    and rt: "\<forall>x. identity_unmarshal ops (identity_marshal ops x) = Inr x"
    and valid: "identity_Valid ops r = None" "Role_iam ops r \<or> User_iam ops r"
    and p: "principal_iam ops r = Some p"
    and fresh: "\<forall>y\<in>set (rs @ us). principal_iam ops y \<noteq> Some p"
  shows "\<exists>a1. AddIdentity_iam ops r a = Inr a1 \<and> RemoveIdentity_iam ops p False a1 = Inr a \<and>
           Identities_iam ops a = Inr (rs @ us)"
proof -
  from k obtain d where d: "snapshot a = Some d"
    "mapRoles d = Some (map (identity_marshal ops) rs)"
    "mapUsers d = Some (map (identity_marshal ops) us)"
    and cl: "\<forall>x\<in>set rs. Role_iam ops x" "\<forall>x\<in>set us. User_iam ops x"
    by (rule keys_classifiedE)
  let ?rs1 = "if Role_iam ops r then rs @ [r] else rs"
  let ?us1 = "if Role_iam ops r then us else us @ [r]"
  have cl1: "\<forall>x\<in>set ?rs1. Role_iam ops x" "\<forall>x\<in>set ?us1. User_iam ops x"
    using cl valid(2) by auto
  have all1: "\<forall>x\<in>set ((rs @ us) @ [r]). Role_iam ops x \<or> User_iam ops x"
    using cl valid(2) by auto
  have f: "filter (Role_iam ops) ((rs @ us) @ [r]) = ?rs1"
    "filter (User_iam ops) ((rs @ us) @ [r]) = ?us1"
    using cl valid(2)
    by (auto simp: filter_id_conv filter_empty_conv dest: Role_iam_not_User_iam)
  obtain a1 where a1: "storeIdentities (map (identity_marshal ops) ?rs1)
      (map (identity_marshal ops) ?us1) a = Inr a1"
    "keys_classified (identity_marshal ops) (Role_iam ops) (User_iam ops) ?rs1 ?us1 a1"
    using storeIdentities_classified [OF d(1) cl1] by blast
  have "splitIdentities_iam ops ((rs @ us) @ [r]) [] [] = Inr (?us1, ?rs1)"
    unfolding splitIdentities_iam_classified [OF all1] f by simp
  then have add: "AddIdentity_iam ops r a = Inr a1"
    using Identities_iam_written [OF k rt] valid(1) a1(1)
    by (simp add: AddIdentity_iam_def setIdentities_iam_def)
  define pre post where "pre = (if Role_iam ops r then rs else rs @ us)"
    and "post = (if Role_iam ops r then us else [])"
  have shape: "?rs1 @ ?us1 = pre @ r # post" "pre @ post = rs @ us"
    by (auto simp: pre_def post_def)
  have nomatch: "\<forall>y\<in>set pre. principal_iam ops y \<noteq> Some p"
    using fresh by (auto simp: pre_def)
  obtain a2 where a2: "RemoveIdentity_iam ops p False a1 = Inr a2"
    using RemoveIdentity_iam_first_match [OF a1(2) rt shape(1) p nomatch] by blast
  have cl': "\<forall>y\<in>set pre. (Role_iam ops y \<or> User_iam ops y) \<and> principal_iam ops y \<noteq> Some p"
    using fresh cl by (auto simp: pre_def)
  have scan: "scanIdentities_iam ops p False 0 (?rs1 @ ?us1) [] = Found (length pre)"
    unfolding shape(1) using scanIdentities_iam_first [OF cl' p, of 0 post "[]"] by simp
  have "take (length pre) (?rs1 @ ?us1) @ drop (length pre + 1) (?rs1 @ ?us1) = rs @ us"
    unfolding shape(1) using shape(2) by simp
  moreover have "setIdentities_iam ops (rs @ us) a1 =
      storeIdentities (map (identity_marshal ops) rs) (map (identity_marshal ops) us) a1"
    using cl by (rule setIdentities_iam_filed)
  moreover have "storeIdentities (map (identity_marshal ops) rs) (map (identity_marshal ops) us) a1 = Inr a"
    using a1(1) d by (auto simp: storeIdentities_Inr snapshot_def split: option.splits)
  ultimately have "RemoveIdentity_iam ops p False a1 = Inr a"
    using Identities_iam_written [OF a1(2) rt] scan by (simp add: RemoveIdentity_iam_def)
  with add Identities_iam_written [OF k rt] show ?thesis by blast
qed

subsection \<open>The concrete values\<close>

lemma kinds:
  "Role nodes" "Role admin" "User bob" "\<not> User nodes" "\<not> User admin" "\<not> Role bob"
  "\<not> Role devs" "\<not> User devs"
  "\<not> Role nodeRole" "\<not> User nodeRole" "\<not> Role adminRole" "\<not> User adminRole"
  by (simp_all add: nodes_def admin_def bob_def devs_def nodeRole_def adminRole_def
        Role_def User_def resource_def)

lemma arns:
  "ARN nodes = ''arn:aws:iam::123:role:nodes''" "ARN admin = ''arn:aws:iam::123:role:admin''"
  "ARN bob = ''arn:aws:iam::123:user:bob''" "ARN devs = ''arn:aws:iam::123:group/devs''"
  "ARN nodeRole = ''arn:aws:iam::123:role/nodes''" "ARN adminRole = ''arn:aws:iam::123:role/admin''"
  by (simp_all add: nodes_def admin_def bob_def devs_def nodeRole_def adminRole_def)

lemma nodes_fold:
  "\<lparr>Username = ''system:node:{{EC2PrivateDNSName}}'',
    Groups = [''system:bootstrappers'', ''system:nodes''],
    ARN = ''arn:aws:iam::123:role:nodes''\<rparr> = nodes"
  by (simp add: nodes_def)

lemma nodeRole_fold:
  "\<lparr>Username = ''system:node:{{EC2PrivateDNSName}}'',
    Groups = [''system:bootstrappers'', ''system:nodes''],
    ARN = ''arn:aws:iam::123:role/nodes''\<rparr> = nodeRole"
  by (simp add: nodeRole_def)

lemma devs_fold:
  "\<lparr>Username = ''devs'', Groups = [''developers''], ARN = ''arn:aws:iam::123:group/devs''\<rparr> = devs"
  by (simp add: devs_def)

lemma malformed:
  "\<not> Role \<lparr>Username = u, Groups = g, ARN = ''arn:aws:iam::123''\<rparr>"
  "\<not> User \<lparr>Username = u, Groups = g, ARN = ''arn:aws:iam::123''\<rparr>"
  by (simp_all add: Role_def User_def resource_def)

lemma iam_ARN:
  "identity_ARN portions_iam nodes = Inr ''arn:aws:iam::123:role:nodes''"
  "identity_ARN portions_iam admin = Inr ''arn:aws:iam::123:role:admin''"
  "identity_ARN portions_iam bob = Inr ''arn:aws:iam::123:user:bob''"
  "identity_ARN portions_iam devs = Inr ''arn:aws:iam::123:group/devs''"
  by (simp_all add: portions_iam_def arns)

lemma iam_kinds:
  "arn_Role portions_iam ''arn:aws:iam::123:role:nodes''"
  "arn_Role portions_iam ''arn:aws:iam::123:role:admin''"
  "\<not> arn_Role portions_iam ''arn:aws:iam::123:user:bob''"
  "arn_User portions_iam ''arn:aws:iam::123:user:bob''"
  "\<not> arn_Role portions_iam ''arn:aws:iam::123:group/devs''"
  "\<not> arn_User portions_iam ''arn:aws:iam::123:group/devs''"
  "arn_Resource portions_iam ''arn:aws:iam::123:group/devs'' = ''group/devs''"
  "arn_String portions_iam s = s"
  "identity_Valid portions_iam nodes = None"
  by (simp_all add: portions_iam_def arns)

lemma iam_codec:
  "identity_marshal portions_iam nodes = as_rolearn nodes"
  "identity_marshal portions_iam admin = as_rolearn admin"
  "identity_marshal portions_iam bob = as_userarn bob"
  "identity_unmarshal portions_iam = UnmarshalJSON"
  by (simp_all add: portions_iam_def arns)

lemmas run =
  holding_def AddIdentity_def RemoveIdentity_def Identities_def readIdentities_def
  unmarshalKey_def readData_def writeData_def setIdentities_def storeIdentities_def
  keys_classified_def snapshot_def UnmarshalJSON_documented UnmarshalJSON_marshalIdentity
  kinds nodes_fold nodeRole_fold devs_fold malformed arns

lemmas run_iam =
  holding_def AddIdentity_iam_def RemoveIdentity_iam_def Identities_iam_def readIdentities_def
  unmarshalKey_def readData_def writeData_def setIdentities_iam_def storeIdentities_def
  keys_classified_def snapshot_def UnmarshalJSON_documented UnmarshalJSON_marshalIdentity
  Role_iam_def User_iam_def principal_iam_def iam_ARN iam_kinds iam_codec arns

subsection \<open>The identity keys\<close>

text \<open>
  C1. Whatever the keys held before, a successful \<open>AddIdentity\<close> or \<open>RemoveIdentity\<close>
  leaves under the roles key only mappings that classify as roles and under the users
  key only mappings that classify as users. This holds for both listings; nothing is
  assumed about the state before the call.
\<close>

theorem identities_classified_after_write:
  "(AddIdentity arn username groups a = Inr a' \<longrightarrow>
      (\<exists>roles users. keys_classified marshalIdentity Role User roles users a')) \<and>
   (RemoveIdentity arn all a = Inr a' \<longrightarrow>
      (\<exists>roles users. keys_classified marshalIdentity Role User roles users a')) \<and>
   (AddIdentity_iam ops identity b = Inr b' \<longrightarrow>
      (\<exists>roles users.
         keys_classified (identity_marshal ops) (Role_iam ops) (User_iam ops) roles users b')) \<and>
   (RemoveIdentity_iam ops arn all b = Inr b' \<longrightarrow>
      (\<exists>roles users.
         keys_classified (identity_marshal ops) (Role_iam ops) (User_iam ops) roles users b'))"
proof (intro conjI impI)
  show "\<exists>roles users. keys_classified marshalIdentity Role User roles users a'"
    if "AddIdentity arn username groups a = Inr a'"
    using that by (rule AddIdentity_classified)
  show "\<exists>roles users. keys_classified marshalIdentity Role User roles users a'"
    if "RemoveIdentity arn all a = Inr a'"
    using that by (rule RemoveIdentity_classified)
  show "\<exists>roles users.
          keys_classified (identity_marshal ops) (Role_iam ops) (User_iam ops) roles users b'"
    if "AddIdentity_iam ops identity b = Inr b'"
    using that by (rule AddIdentity_iam_classified)
  show "\<exists>roles users.
          keys_classified (identity_marshal ops) (Role_iam ops) (User_iam ops) roles users b'"
    if "RemoveIdentity_iam ops arn all b = Inr b'"
    using that by (rule RemoveIdentity_iam_classified)
qed

text \<open>Before the calls a user is filed under the roles key and a role under the users key.\<close>

theorem identities_classified_after_write_witness:
  "Identities (holding [as_userarn bob] [as_rolearn admin] []) = Inr [bob, admin] \<and>
   \<not> Role bob \<and> \<not> User admin \<and>
   AddIdentity ''arn:aws:iam::123:role:nodes'' ''system:node:{{EC2PrivateDNSName}}''
     [''system:bootstrappers'', ''system:nodes''] (holding [as_userarn bob] [as_rolearn admin] []) =
     Inr (holding [marshalIdentity admin, marshalIdentity nodes] [marshalIdentity bob] []) \<and>
   (\<exists>roles users. keys_classified marshalIdentity Role User roles users
      (holding [marshalIdentity admin, marshalIdentity nodes] [marshalIdentity bob] [])) \<and>
   keys_classified marshalIdentity Role User [admin, nodes] [bob]
     (holding [marshalIdentity admin, marshalIdentity nodes] [marshalIdentity bob] []) \<and>
   RemoveIdentity ''arn:aws:iam::123:role:nodes'' True (holding [as_userarn bob] [as_rolearn admin] []) =
     Inr (holding [marshalIdentity admin] [marshalIdentity bob] []) \<and>
   (\<exists>roles users. keys_classified marshalIdentity Role User roles users
      (holding [marshalIdentity admin] [marshalIdentity bob] [])) \<and>
   AddIdentity_iam portions_iam nodes (holding [as_userarn bob] [as_rolearn admin] []) =
     Inr (holding [as_rolearn admin, as_rolearn nodes] [as_userarn bob] []) \<and>
   (\<exists>roles users.
      keys_classified (identity_marshal portions_iam) (Role_iam portions_iam) (User_iam portions_iam)
        roles users (holding [as_rolearn admin, as_rolearn nodes] [as_userarn bob] [])) \<and>
   keys_classified (identity_marshal portions_iam) (Role_iam portions_iam) (User_iam portions_iam)
     [admin, nodes] [bob] (holding [as_rolearn admin, as_rolearn nodes] [as_userarn bob] []) \<and>
   RemoveIdentity_iam portions_iam ''arn:aws:iam::123:role:nodes'' True
     (holding [as_userarn bob] [as_rolearn admin] []) =
     Inr (holding [as_rolearn admin] [as_userarn bob] []) \<and>
   (\<exists>roles users.
      keys_classified (identity_marshal portions_iam) (Role_iam portions_iam) (User_iam portions_iam)
        roles users (holding [as_rolearn admin] [as_userarn bob] []))"
proof -
  note t = identities_classified_after_write
  have 0: "Identities (holding [as_userarn bob] [as_rolearn admin] []) = Inr [bob, admin]"
    "\<not> Role bob" "\<not> User admin"
    by (simp_all add: run)
  have 1: "AddIdentity ''arn:aws:iam::123:role:nodes'' ''system:node:{{EC2PrivateDNSName}}''
             [''system:bootstrappers'', ''system:nodes''] (holding [as_userarn bob] [as_rolearn admin] []) =
             Inr (holding [marshalIdentity admin, marshalIdentity nodes] [marshalIdentity bob] [])"
    by (simp add: run)
  have c1: "keys_classified marshalIdentity Role User [admin, nodes] [bob]
     (holding [marshalIdentity admin, marshalIdentity nodes] [marshalIdentity bob] [])"
    by (simp add: run)
  have 2: "RemoveIdentity ''arn:aws:iam::123:role:nodes'' True
             (holding [as_userarn bob] [as_rolearn admin] []) =
             Inr (holding [marshalIdentity admin] [marshalIdentity bob] [])"
    by (simp add: run)
  have 3: "AddIdentity_iam portions_iam nodes (holding [as_userarn bob] [as_rolearn admin] []) =
             Inr (holding [as_rolearn admin, as_rolearn nodes] [as_userarn bob] [])"
    by (simp add: run_iam)
  have c3: "keys_classified (identity_marshal portions_iam) (Role_iam portions_iam)
      (User_iam portions_iam) [admin, nodes] [bob]
      (holding [as_rolearn admin, as_rolearn nodes] [as_userarn bob] [])"
    by (simp add: run_iam)
  have 4: "RemoveIdentity_iam portions_iam ''arn:aws:iam::123:role:nodes'' True
             (holding [as_userarn bob] [as_rolearn admin] []) =
             Inr (holding [as_rolearn admin] [as_userarn bob] [])"
    by (simp add: run_iam)
  note k1 = t [THEN conjunct1, THEN mp, OF 1]
  note k2 = t [THEN conjunct2, THEN conjunct1, THEN mp, OF 2]
  note k3 = t [THEN conjunct2, THEN conjunct2, THEN conjunct1, THEN mp, OF 3]
  note k4 = t [THEN conjunct2, THEN conjunct2, THEN conjunct2, THEN mp, OF 4]
  from 0 1 k1 c1 2 k2 3 k3 c3 4 k4 show ?thesis by (intro conjI)
qed

text \<open>
  C2. The first listing does not fail on a mapping that is neither a role nor a user:
  \<open>setIdentities\<close> returns without error and the mapping is missing from both keys, so
  \<open>AddIdentity\<close> of a group ARN reports success and stores nothing. The same happens to
  an ARN written \<open>role/name\<close>, whose sixth portion is not the word \<open>role\<close>. The second
  listing returns an error for the same list.
\<close>

theorem setIdentities_drops_unclassified:
  "\<not> Role devs \<and> \<not> User devs \<and>
   setIdentities [nodes, devs] (holding [] [] []) = Inr (holding [marshalIdentity nodes] [] []) \<and>
   Identities (holding [as_rolearn nodes] [] []) = Inr [nodes] \<and>
   AddIdentity ''arn:aws:iam::123:group/devs'' ''devs'' [''developers'']
     (holding [as_rolearn nodes] [] []) = Inr (holding [marshalIdentity nodes] [] []) \<and>
   AddIdentity ''arn:aws:iam::123:role/nodes'' ''system:node:{{EC2PrivateDNSName}}''
     [''system:bootstrappers'', ''system:nodes''] (holding [] [] []) = Inr (holding [] [] []) \<and>
   setIdentities_iam portions_iam [nodes, devs] (holding [] [] []) =
     Inl (ClassificationError ''group/devs'')"
proof -
  have "\<not> Role devs" "\<not> User devs"
    "setIdentities [nodes, devs] (holding [] [] []) = Inr (holding [marshalIdentity nodes] [] [])"
    "Identities (holding [as_rolearn nodes] [] []) = Inr [nodes]"
    "AddIdentity ''arn:aws:iam::123:group/devs'' ''devs'' [''developers'']
       (holding [as_rolearn nodes] [] []) = Inr (holding [marshalIdentity nodes] [] [])"
    "AddIdentity ''arn:aws:iam::123:role/nodes'' ''system:node:{{EC2PrivateDNSName}}''
       [''system:bootstrappers'', ''system:nodes''] (holding [] [] []) = Inr (holding [] [] [])"
    by (simp_all add: run)
  moreover have "setIdentities_iam portions_iam [nodes, devs] (holding [] [] []) =
      Inl (ClassificationError ''group/devs'')"
    by (simp add: run_iam)
  ultimately show ?thesis by (intro conjI)
qed

text \<open>
  C3. In the first listing \<open>RemoveIdentity\<close> with \<open>all\<close> false does not leave the other
  mappings as they were. On a ConfigMap with two roles whose ARNs are written \<open>role/name\<close>,
  removing one of them deletes the other one too: \<open>setIdentities\<close> drops every mapping whose
  sixth portion is not the word \<open>role\<close> or \<open>user\<close>. Where the other mapping is kept, it is
  written under the key \<open>ARN\<close>, and the next \<open>Identities\<close> fails on it. The second listing
  keeps the other mappings (\<open>RemoveIdentity_iam_first_match\<close>, \<open>RemoveIdentity_iam_no_match\<close>).
\<close>

theorem RemoveIdentity_single_loses_others:
  "Identities (holding [as_rolearn adminRole, as_rolearn nodeRole] [] []) =
     Inr [adminRole, nodeRole] \<and>
   RemoveIdentity ''arn:aws:iam::123:role/nodes'' False
     (holding [as_rolearn adminRole, as_rolearn nodeRole] [] []) = Inr (holding [] [] []) \<and>
   Identities (holding [] [] []) = Inr [] \<and>
   Identities (holding [as_rolearn admin, as_rolearn nodes] [] []) = Inr [admin, nodes] \<and>
   RemoveIdentity ''arn:aws:iam::123:role:nodes'' False
     (holding [as_rolearn admin, as_rolearn nodes] [] []) =
     Inr (holding [marshalIdentity admin] [] []) \<and>
   Identities (holding [marshalIdentity admin] [] []) = Inl (DecodeError ''mapRoles'')"
  by (simp add: run)

text \<open>
  C4. In the first listing \<open>RemoveIdentity\<close> with \<open>all\<close> true and an ARN that no mapping
  has does not leave the identity list as it was. On a ConfigMap with two roles whose ARNs
  are written \<open>role/name\<close> the call succeeds and deletes both. Where the mappings are kept,
  they are written under the key \<open>ARN\<close>, and the next \<open>Identities\<close> fails. The second
  listing leaves the state as it was (\<open>RemoveIdentity_iam_all\<close>).
\<close>

theorem RemoveIdentity_every_loses_others:
  "Identities (holding [as_rolearn adminRole, as_rolearn nodeRole] [] []) =
     Inr [adminRole, nodeRole] \<and>
   ARN adminRole \<noteq> ''arn:aws:iam::123:role/other'' \<and>
   ARN nodeRole \<noteq> ''arn:aws:iam::123:role/other'' \<and>
   RemoveIdentity ''arn:aws:iam::123:role/other'' True
     (holding [as_rolearn adminRole, as_rolearn nodeRole] [] []) = Inr (holding [] [] []) \<and>
   Identities (holding [] [] []) = Inr [] \<and>
   Identities (holding [as_rolearn admin] [as_userarn bob] []) = Inr [admin, bob] \<and>
   RemoveIdentity ''arn:aws:iam::123:role:other'' True
     (holding [as_rolearn admin] [as_userarn bob] []) =
     Inr (holding [marshalIdentity admin] [marshalIdentity bob] []) \<and>
   Identities (holding [marshalIdentity admin] [marshalIdentity bob] []) =
     Inl (DecodeError ''mapRoles'')"
  by (simp add: run)

text \<open>
  C9. In the first listing \<open>AddIdentity\<close> followed by \<open>RemoveIdentity\<close> does not give
  back the identity list. With the record of the spec, whose ARN is written \<open>role/nodes\<close>,
  on a ConfigMap that holds one such role, \<open>AddIdentity\<close> stores nothing and deletes the
  role that was there, and \<open>RemoveIdentity\<close> then returns the not-found error. With an ARN
  whose sixth portion is the word \<open>role\<close> the mapping is written under the key \<open>ARN\<close>, and
  \<open>RemoveIdentity\<close> fails reading it. The second listing gives back the state
  (\<open>Add_then_RemoveIdentity_iam\<close>).
\<close>

theorem AddIdentity_then_RemoveIdentity_loses:
  "Identities (holding [as_rolearn adminRole] [] []) = Inr [adminRole] \<and>
   ARN adminRole \<noteq> ''arn:aws:iam::123:role/nodes'' \<and>
   AddIdentity ''arn:aws:iam::123:role/nodes'' ''system:node:{{EC2PrivateDNSName}}''
     [''system:bootstrappers'', ''system:nodes''] (holding [as_rolearn adminRole] [] []) =
     Inr (holding [] [] []) \<and>
   RemoveIdentity ''arn:aws:iam::123:role/nodes'' False (holding [] [] []) =
     Inl (NotFoundError ''arn:aws:iam::123:role/nodes'') \<and>
   Identities (holding [] [] []) = Inr [] \<and>
   Role nodes \<and>
   AddIdentity ''arn:aws:iam::123:role:nodes'' ''system:node:{{EC2PrivateDNSName}}''
     [''system:bootstrappers'', ''system:nodes''] (holding [] [] []) =
     Inr (holding [marshalIdentity nodes] [] []) \<and>
   RemoveIdentity ''arn:aws:iam::123:role:nodes'' False (holding [marshalIdentity nodes] [] []) =
     Inl (DecodeError ''mapRoles'')"
  by (simp add: run)

subsection \<open>Parsing the ARN\<close>

text \<open>
  C7. The first listing has no parsing step that can fail. The ARN \<open>arn:aws:iam::123\<close>
  has five portions; \<open>resource\<close> answers the empty string for it, \<open>AddIdentity\<close> returns
  without error and stores nothing, and \<open>RemoveIdentity\<close> reports it as not found. The
  second listing hands every ARN to package \<open>iam\<close> and returns the error that comes back.
\<close>

theorem malformed_arn_accepted:
  "Split CHR '':'' ''arn:aws:iam::123'' = [''arn'', ''aws'', ''iam'', '''', ''123''] \<and>
   resource \<lparr>Username = ''u'', Groups = [], ARN = ''arn:aws:iam::123''\<rparr> = '''' \<and>
   AddIdentity ''arn:aws:iam::123'' ''u'' [] (holding [] [] []) = Inr (holding [] [] []) \<and>
   RemoveIdentity ''arn:aws:iam::123'' False (holding [] [] []) =
     Inl (NotFoundError ''arn:aws:iam::123'')"
  by (simp add: run resource_def)

end
